theory Spec2Isabelle
  imports
    Main
    "HOL-Library.Multiset"
    "HOL-Library.Char_ord"
    "HOL-Library.List_Lexorder"
begin

section \<open>Data model\<close>

text \<open>
  The program \<^verbatim>\<open>ai.py\<close> keeps two SQLite tables, \<^verbatim>\<open>logbook\<close> and
  \<^verbatim>\<open>attendance\<close>. A row is a record with the columns of the
  \<^verbatim>\<open>CREATE TABLE\<close> statement; the two tables both have columns called
  \<^verbatim>\<open>id\<close> and \<^verbatim>\<open>date\<close>, which carry a suffix here. Text columns are
  strings (the program only ever binds Python \<^verbatim>\<open>str\<close> values), compared as
  SQLite's default \<^verbatim>\<open>BINARY\<close> collation compares them: lexicographically,
  character by character, a proper prefix being smaller.
\<close>

record log_row =
  id_log :: nat
  name :: string
  activity :: string
  date_log :: string
  description :: string

record att_row =
  id_att :: nat
  student_name :: string
  roll_number :: string
  date_att :: string
  status :: string

text \<open>
  A table declared \<^verbatim>\<open>INTEGER PRIMARY KEY AUTOINCREMENT\<close> is its rows, in
  insertion order, together with its entry of \<^verbatim>\<open>sqlite_sequence\<close>: the largest
  rowid the table has ever held. A database is the two tables, each of which may not
  exist yet. Row ids are natural numbers: the engine's limit of \<open>2 ^ 63 - 1\<close> lies
  beyond any number of rows a database file can hold, and failures of the storage
  medium are outside the model.
\<close>

record logbook_table =
  log_rows :: "log_row list"
  log_seq :: nat

record attendance_table =
  att_rows :: "att_row list"
  att_seq :: nat

record conn =
  logbook :: "logbook_table option"
  attendance :: "attendance_table option"

text \<open>The exceptions the functions of \<^verbatim>\<open>ai.py\<close> can raise.\<close>

datatype py_error =
  OperationalError  \<comment> \<open>sqlite3: no such table, from \<^verbatim>\<open>conn.execute\<close>\<close>
  | DatabaseError   \<comment> \<open>pandas: the error of a failed \<^verbatim>\<open>read_sql_query\<close>\<close>
  | ValueError      \<comment> \<open>CountVectorizer: empty vocabulary\<close>
  | AttributeError  \<comment> \<open>attribute lookup on an object that lacks it\<close>

text \<open>The value of \<^verbatim>\<open>datetime.now()\<close>, as far as \<^verbatim>\<open>strftime("%Y-%m-%d")\<close> reads it.\<close>

record datetime =
  year :: nat
  month :: nat
  day :: nat


section \<open>The record store\<close>

text \<open>A database file that does not exist yet holds no table.\<close>

definition new_db :: conn where
  "new_db = \<lparr>logbook = None, attendance = None\<rparr>"

text \<open>\<^verbatim>\<open>CREATE TABLE IF NOT EXISTS\<close>: an existing table is left as it is.\<close>

definition create_tables :: "conn \<Rightarrow> conn" where
  "create_tables c =
     \<lparr>logbook = (case logbook c of
                   None \<Rightarrow> Some \<lparr>log_rows = [], log_seq = 0\<rparr>
                 | Some t \<Rightarrow> Some t),
      attendance = (case attendance c of
                      None \<Rightarrow> Some \<lparr>att_rows = [], att_seq = 0\<rparr>
                    | Some t \<Rightarrow> Some t)\<rparr>"

text \<open>
  The rowid \<^verbatim>\<open>AUTOINCREMENT\<close> gives a new row: one more than the largest
  rowid ever used, which is the larger of the \<^verbatim>\<open>sqlite_sequence\<close> entry and the
  rowids now in the table.
\<close>

definition next_rowid :: "nat list \<Rightarrow> nat \<Rightarrow> nat" where
  "next_rowid ids s = Suc (max s (fold max ids 0))"

text \<open>
  \<^verbatim>\<open>INSERT INTO logbook (name, activity, date, description) VALUES (?, ?, ?, ?)\<close>.
  On a missing table the statement raises and the transaction changes nothing.
\<close>

definition add_log_entry ::
  "conn \<Rightarrow> string \<Rightarrow> string \<Rightarrow> string \<Rightarrow> string \<Rightarrow> py_error + conn" where
  "add_log_entry c n a d s =
     (case logbook c of
        None \<Rightarrow> Inl OperationalError
      | Some t \<Rightarrow>
          (let i = next_rowid (map id_log (log_rows t)) (log_seq t);
               r = \<lparr>id_log = i, name = n, activity = a, date_log = d, description = s\<rparr>
           in Inr (c\<lparr>logbook := Some \<lparr>log_rows = log_rows t @ [r], log_seq = i\<rparr>\<rparr>)))"

text \<open>
  \<^verbatim>\<open>ORDER BY date DESC\<close> over a full table scan: the rows are sorted by the
  key, largest first, and rows with equal keys stay in scan order, which is insertion
  order. Each row is inserted behind every row whose key is at least its own.
\<close>

fun insert_desc :: "('a \<Rightarrow> string) \<Rightarrow> 'a \<Rightarrow> 'a list \<Rightarrow> 'a list" where
  "insert_desc k r [] = [r]"
| "insert_desc k r (x # xs) =
     (if k r \<le> k x then x # insert_desc k r xs else r # x # xs)"

definition order_by_desc :: "('a \<Rightarrow> string) \<Rightarrow> 'a list \<Rightarrow> 'a list" where
  "order_by_desc k rs = foldl (\<lambda>acc r. insert_desc k r acc) [] rs"

text \<open>
  \<^verbatim>\<open>SELECT * FROM logbook ORDER BY date DESC\<close>, read into a data frame by
  \<^verbatim>\<open>pd.read_sql_query\<close>, which reports a failing query, here one on a missing
  table, as its own \<^verbatim>\<open>DatabaseError\<close>.
\<close>

definition get_log_entries :: "conn \<Rightarrow> py_error + log_row list" where
  "get_log_entries c =
     (case logbook c of
        None \<Rightarrow> Inl DatabaseError
      | Some t \<Rightarrow> Inr (order_by_desc date_log (log_rows t)))"

text \<open>
  \<^verbatim>\<open>strftime("%Y-%m-%d")\<close>, as the C library under CPython writes it:
  \<^verbatim>\<open>%Y\<close> is the year in decimal with no padding, so a year below 1000 comes out
  on fewer than four digits (\<^verbatim>\<open>999-01-01\<close>); \<^verbatim>\<open>%m\<close> and \<^verbatim>\<open>%d\<close> are
  always two digits, zero-padded.
\<close>

definition digit :: "nat \<Rightarrow> char" where
  "digit n = char_of (48 + n mod 10)"

fun str_nat :: "nat \<Rightarrow> string" where
  "str_nat n = (if n < 10 then [digit n] else str_nat (n div 10) @ [digit n])"

declare str_nat.simps [simp del]

definition strftime_Ymd :: "datetime \<Rightarrow> string" where
  "strftime_Ymd t =
     str_nat (year t) @
     [CHR ''-'', digit (month t div 10), digit (month t),
      CHR ''-'', digit (day t div 10), digit (day t)]"

text \<open>
  \<^verbatim>\<open>mark_attendance(conn, student_name, roll_number, status)\<close> reads the clock
  itself; the clock's value at the call is the parameter \<open>now\<close>. The function has no
  parameter for a date.
\<close>

definition mark_attendance ::
  "datetime \<Rightarrow> conn \<Rightarrow> string \<Rightarrow> string \<Rightarrow> string \<Rightarrow> py_error + conn" where
  "mark_attendance now c sn rn st =
     (case attendance c of
        None \<Rightarrow> Inl OperationalError
      | Some t \<Rightarrow>
          (let i = next_rowid (map id_att (att_rows t)) (att_seq t);
               r = \<lparr>id_att = i, student_name = sn, roll_number = rn,
                    date_att = strftime_Ymd now, status = st\<rparr>
           in Inr (c\<lparr>attendance := Some \<lparr>att_rows = att_rows t @ [r], att_seq = i\<rparr>\<rparr>)))"

text \<open>\<^verbatim>\<open>SELECT * FROM attendance ORDER BY date DESC\<close>.\<close>

definition get_attendance :: "conn \<Rightarrow> py_error + att_row list" where
  "get_attendance c =
     (case attendance c of
        None \<Rightarrow> Inl DatabaseError
      | Some t \<Rightarrow> Inr (order_by_desc date_att (att_rows t)))"


section \<open>The similarity advisor\<close>

text \<open>
  \<^verbatim>\<open>CountVectorizer()\<close> with its default settings: a document is lower-cased and
  cut into tokens by the pattern \<^verbatim>\<open>(?u)\b\w\w+\b\<close>, that is, into its maximal runs
  of word characters, of which those of length at least two are kept. Descriptions are
  ASCII text here: a word character is a letter, a digit or the underscore.
\<close>

definition is_word_char :: "char \<Rightarrow> bool" where
  "is_word_char c =
     (let n = (of_char c :: nat)
      in (48 \<le> n \<and> n \<le> 57) \<or> (65 \<le> n \<and> n \<le> 90) \<or> n = 95 \<or> (97 \<le> n \<and> n \<le> 122))"

definition lower_char :: "char \<Rightarrow> char" where
  "lower_char c =
     (let n = (of_char c :: nat)
      in if 65 \<le> n \<and> n \<le> 90 then char_of (n + 32) else c)"

definition lower :: "string \<Rightarrow> string" where
  "lower s = map lower_char s"

text \<open>The maximal runs of word characters; \<open>w\<close> is the run being read, reversed.\<close>

fun word_runs :: "string \<Rightarrow> string \<Rightarrow> string list" where
  "word_runs w [] = [rev w]"
| "word_runs w (c # cs) =
     (if is_word_char c then word_runs (c # w) cs else rev w # word_runs [] cs)"

definition tokenize :: "string \<Rightarrow> string list" where
  "tokenize s = filter (\<lambda>w. 2 \<le> length w) (word_runs [] s)"

definition analyze :: "string \<Rightarrow> string list" where
  "analyze doc = tokenize (lower doc)"

text \<open>
  \<^verbatim>\<open>fit_transform\<close> learns the vocabulary, the sorted distinct tokens of all
  documents, and returns the document-term matrix: one row for each document, one
  column for each term, holding the number of times the term occurs in the document.
  It raises \<^verbatim>\<open>ValueError\<close> on an empty vocabulary. The matrix is a scipy
  \<^verbatim>\<open>csr_matrix\<close>, kept here as the list of its rows.
\<close>

type_synonym csr_matrix = "nat list list"

definition fit_transform :: "string list \<Rightarrow> py_error + csr_matrix" where
  "fit_transform raw_documents =
     (let vocabulary = sort (remdups (concat (map analyze raw_documents)))
      in if vocabulary = [] then Inl ValueError
         else Inr (map (\<lambda>doc. map (count_list (analyze doc)) vocabulary) raw_documents))"

definition toarray :: "csr_matrix \<Rightarrow> nat list list" where
  "toarray m = m"

text \<open>
  Line 73 calls \<^verbatim>\<open>vectorizer.transform([new_description])\<close>, where
  \<^verbatim>\<open>vectorizer\<close> is the matrix \<^verbatim>\<open>fit_transform\<close> returned on line 70 and not
  the \<^verbatim>\<open>CountVectorizer\<close> object (line 71 calls the matrix's
  \<^verbatim>\<open>toarray\<close> on it). A \<^verbatim>\<open>csr_matrix\<close> has no attribute
  \<^verbatim>\<open>transform\<close>: the lookup raises \<^verbatim>\<open>AttributeError\<close>, whatever the
  matrix is, before the argument of the call is evaluated.
\<close>

definition getattr_transform :: "csr_matrix \<Rightarrow> py_error" where
  "getattr_transform m = AttributeError"

text \<open>The calls into Streamlit that put something on the page.\<close>

datatype st_event = Warning string | Subheader string | Write string

text \<open>
  \<^verbatim>\<open>ai_suggestions(new_description, logbook_df)\<close>. The result \<open>Inr evs\<close> is a
  normal return (of \<^verbatim>\<open>None\<close>, the function has no other return value) after the
  page output \<open>evs\<close>; \<open>Inl e\<close> is the exception \<open>e\<close>. The data frame is empty when it
  has no row. Lines 74 to 85 (cosine similarity, \<^verbatim>\<open>argmax\<close>, the page output of
  the best match) come after the statement of line 73, which raises on every path
  that reaches it, and so have no branch in the function.
\<close>

definition ai_suggestions :: "string \<Rightarrow> log_row list \<Rightarrow> py_error + st_event list" where
  "ai_suggestions new_description logbook_df =
     (if logbook_df = [] then Inr [Warning ''No logs available for AI suggestions.'']
      else
        (case fit_transform (map description logbook_df) of
           Inl e \<Rightarrow> Inl e
         | Inr vectorizer \<Rightarrow>
             (let vectors = toarray vectorizer
              in Inl (getattr_transform vectorizer))))"


section \<open>Sequences of operations\<close>

text \<open>
  The five operations of the program, and what one of them gives back: an exception,
  nothing, a data frame or page output. An operation that raises leaves the database
  as it was.
\<close>

datatype op =
  AddLogEntry string string string string
  | GetLogEntries
  | MarkAttendance datetime string string string
  | GetAttendance
  | AiSuggestions string "log_row list"

datatype outcome =
  Raised py_error
  | Done
  | LogFrame "log_row list"
  | AttFrame "att_row list"
  | Shown "st_event list"

fun exec :: "op \<Rightarrow> conn \<Rightarrow> outcome \<times> conn" where
  "exec (AddLogEntry n a d s) c =
     (case add_log_entry c n a d s of Inl e \<Rightarrow> (Raised e, c) | Inr c' \<Rightarrow> (Done, c'))"
| "exec GetLogEntries c =
     (case get_log_entries c of Inl e \<Rightarrow> (Raised e, c) | Inr df \<Rightarrow> (LogFrame df, c))"
| "exec (MarkAttendance now sn rn st) c =
     (case mark_attendance now c sn rn st of Inl e \<Rightarrow> (Raised e, c) | Inr c' \<Rightarrow> (Done, c'))"
| "exec GetAttendance c =
     (case get_attendance c of Inl e \<Rightarrow> (Raised e, c) | Inr df \<Rightarrow> (AttFrame df, c))"
| "exec (AiSuggestions q df) c =
     (case ai_suggestions q df of Inl e \<Rightarrow> (Raised e, c) | Inr evs \<Rightarrow> (Shown evs, c))"

text \<open>The database after a sequence of operations.\<close>

fun run :: "op list \<Rightarrow> conn \<Rightarrow> conn" where
  "run [] c = c"
| "run (x # xs) c = run xs (snd (exec x c))"

text \<open>The rows and the ids of the two tables, none when the table does not exist.\<close>

definition logbook_rows :: "conn \<Rightarrow> log_row list" where
  "logbook_rows c = (case logbook c of None \<Rightarrow> [] | Some t \<Rightarrow> log_rows t)"

definition attendance_rows :: "conn \<Rightarrow> att_row list" where
  "attendance_rows c = (case attendance c of None \<Rightarrow> [] | Some t \<Rightarrow> att_rows t)"


text \<open>
  What a caller passes to \<^verbatim>\<open>add_log_entry\<close>: name, activity, date and
  description. \<open>entry_of\<close> reads the same four columns off a stored row.
\<close>

definition entry_of :: "log_row \<Rightarrow> string \<times> string \<times> string \<times> string" where
  "entry_of r = (name r, activity r, date_log r, description r)"

fun add_op :: "string \<times> string \<times> string \<times> string \<Rightarrow> op" where
  "add_op (n, a, d, s) = AddLogEntry n a d s"


text \<open>
  Reading a date back from its text: a decimal digit, the number a string of digits
  writes, and the range of the fields of a Python \<^verbatim>\<open>datetime\<close>.
\<close>

definition is_digit :: "char \<Rightarrow> bool" where
  "is_digit c = (48 \<le> (of_char c :: nat) \<and> (of_char c :: nat) \<le> 57)"

definition decimal :: "string \<Rightarrow> nat" where
  "decimal s = foldl (\<lambda>n c. 10 * n + (of_char c - 48)) 0 s"

definition is_date :: "datetime \<Rightarrow> bool" where
  "is_date t = (1 \<le> year t \<and> year t \<le> 9999 \<and> 1 \<le> month t \<and> month t \<le> 12 \<and> 1 \<le> day t \<and> day t \<le> 31)"


text \<open>The id columns of the two tables, in insertion order.\<close>

definition log_ids :: "conn \<Rightarrow> nat list" where
  "log_ids c = map id_log (logbook_rows c)"

definition att_ids :: "conn \<Rightarrow> nat list" where
  "att_ids c = map id_att (attendance_rows c)"



section \<open>Ordering by date\<close>

lemma mset_insert_desc: "mset (insert_desc k r xs) = add_mset r (mset xs)"
  by (induction xs) simp_all

lemma set_insert_desc: "set (insert_desc k r xs) = insert r (set xs)"
  by (induction xs) auto

lemma sorted_insert_desc:
  "sorted_wrt (\<lambda>a b. k b \<le> k a) xs \<Longrightarrow> sorted_wrt (\<lambda>a b. k b \<le> k a) (insert_desc k r xs)"
  by (induction xs) (auto simp: set_insert_desc)

lemma mset_foldl_insert_desc:
  "mset (foldl (\<lambda>acc r. insert_desc k r acc) acc rs) = mset acc + mset rs"
  by (induction rs arbitrary: acc) (simp_all add: mset_insert_desc)

lemma sorted_foldl_insert_desc:
  "sorted_wrt (\<lambda>a b. k b \<le> k a) acc \<Longrightarrow>
   sorted_wrt (\<lambda>a b. k b \<le> k a) (foldl (\<lambda>acc r. insert_desc k r acc) acc rs)"
  by (induction rs arbitrary: acc) (simp_all add: sorted_insert_desc)

lemma mset_order_by_desc: "mset (order_by_desc k rs) = mset rs"
  by (simp add: order_by_desc_def mset_foldl_insert_desc)

lemma sorted_order_by_desc: "sorted_wrt (\<lambda>a b. k b \<le> k a) (order_by_desc k rs)"
  by (simp add: order_by_desc_def sorted_foldl_insert_desc)

lemma length_order_by_desc: "length (order_by_desc k rs) = length rs"
  using mset_order_by_desc [of k rs] by (metis size_mset)

text \<open>
  Rows of equal date stay in insertion order: two rows of the same date that are
  inserted last, one after the other, come out next to each other, the older first.
\<close>

lemma order_by_desc_snoc: "order_by_desc k (xs @ [r]) = insert_desc k r (order_by_desc k xs)"
  by (simp add: order_by_desc_def)

lemma insert_desc_split:
  "sorted_wrt (\<lambda>a b. k b \<le> k a) xs \<Longrightarrow>
   \<exists>A B. xs = A @ B \<and> insert_desc k r xs = A @ r # B \<and>
         (\<forall>a\<in>set A. k r \<le> k a) \<and> (\<forall>b\<in>set B. k b < k r)"
proof (induction xs)
  case Nil
  then show ?case by simp
next
  case (Cons x xs)
  show ?case
  proof (cases "k r \<le> k x")
    case True
    from Cons obtain A B where
      "xs = A @ B" "insert_desc k r xs = A @ r # B"
      "\<forall>a\<in>set A. k r \<le> k a" "\<forall>b\<in>set B. k b < k r"
      by auto
    with True have "x # xs = (x # A) @ B \<and> insert_desc k r (x # xs) = (x # A) @ r # B \<and>
         (\<forall>a\<in>set (x # A). k r \<le> k a) \<and> (\<forall>b\<in>set B. k b < k r)"
      by simp
    then show ?thesis by blast
  next
    case False
    then have lt: "k x < k r" by simp
    have "\<forall>b\<in>set xs. k b \<le> k x"
      using Cons.prems by simp
    with lt have "\<forall>b\<in>set (x # xs). k b < k r"
      by auto
    with False have "x # xs = [] @ (x # xs) \<and> insert_desc k r (x # xs) = [] @ r # (x # xs) \<and>
         (\<forall>a\<in>set []. k r \<le> k a) \<and> (\<forall>b\<in>set (x # xs). k b < k r)"
      by simp
    then show ?thesis by blast
  qed
qed

lemma insert_desc_below: "\<forall>b\<in>set B. k b < k r \<Longrightarrow> insert_desc k r B = r # B"
  by (cases B) auto

lemma insert_desc_behind:
  "\<forall>a\<in>set A. k r \<le> k a \<Longrightarrow> k r \<le> k r1 \<Longrightarrow> \<forall>b\<in>set B. k b < k r \<Longrightarrow>
   insert_desc k r (A @ r1 # B) = A @ r1 # r # B"
  by (induction A) (simp_all add: insert_desc_below)

lemma order_by_desc_two_equal:
  assumes "k r1 = k r2"
  shows "\<exists>A B. order_by_desc k xs = A @ B \<and> order_by_desc k (xs @ [r1, r2]) = A @ r1 # r2 # B"
proof -
  from insert_desc_split [OF sorted_order_by_desc, of k xs r1] obtain A B where
    AB: "order_by_desc k xs = A @ B" "insert_desc k r1 (order_by_desc k xs) = A @ r1 # B"
      "\<forall>a\<in>set A. k r1 \<le> k a" "\<forall>b\<in>set B. k b < k r1"
    by blast
  have "order_by_desc k (xs @ [r1, r2]) = insert_desc k r2 (insert_desc k r1 (order_by_desc k xs))"
    using order_by_desc_snoc [of k "xs @ [r1]" r2] order_by_desc_snoc [of k xs r1] by simp
  also have "\<dots> = insert_desc k r2 (A @ r1 # B)"
    by (simp only: AB(2))
  also have "\<dots> = A @ r1 # r2 # B"
    using AB(3,4) assms by (intro insert_desc_behind) simp_all
  finally show ?thesis using AB(1) by blast
qed


section \<open>Log entries: what was added is what is returned\<close>

lemma run_adds:
  "logbook c = Some t \<Longrightarrow>
   \<exists>t'. logbook (run (map add_op es) c) = Some t' \<and>
        map entry_of (log_rows t') = map entry_of (log_rows t) @ es"
proof (induction es arbitrary: c t)
  case Nil
  then show ?case by simp
next
  case (Cons e es)
  obtain n a d s where e: "e = (n, a, d, s)" by (cases e) auto
  define r where
    "r = \<lparr>id_log = next_rowid (map id_log (log_rows t)) (log_seq t),
          name = n, activity = a, date_log = d, description = s\<rparr>"
  have step: "logbook (snd (exec (add_op e) c)) = Some \<lparr>log_rows = log_rows t @ [r], log_seq = id_log r\<rparr>"
    using Cons.prems by (simp add: e add_log_entry_def Let_def r_def)
  have r: "entry_of r = e"
    by (simp add: e entry_of_def r_def)
  from Cons.IH [OF step] obtain t' where
    "logbook (run (map add_op es) (snd (exec (add_op e) c))) = Some t'"
    "map entry_of (log_rows t') = map entry_of (log_rows t @ [r]) @ es"
    by auto
  then show ?case using r by auto
qed

text \<open>
  Claim C1. Starting from a database whose logbook table exists and is empty, after
  any sequence \<open>es\<close> of \<^verbatim>\<open>add_log_entry\<close> calls \<^verbatim>\<open>get_log_entries\<close>
  returns a data frame: its rows carry exactly the entries that were added, as a
  multiset and so with the same count, and they are ordered by the date column,
  descending in the lexicographic order of the text.
\<close>

theorem get_log_entries_returns_added:
  assumes "logbook c = Some t" and "log_rows t = []"
  shows "\<exists>df. get_log_entries (run (map add_op es) c) = Inr df \<and>
              mset (map entry_of df) = mset es \<and>
              length df = length es \<and>
              sorted_wrt (\<lambda>a b. date_log b \<le> date_log a) df"
proof -
  from run_adds [OF assms(1), of es] assms(2) obtain t' where
    t': "logbook (run (map add_op es) c) = Some t'" and rows: "map entry_of (log_rows t') = es"
    by auto
  let ?df = "order_by_desc date_log (log_rows t')"
  have "get_log_entries (run (map add_op es) c) = Inr ?df"
    by (simp add: get_log_entries_def t')
  moreover have "mset (map entry_of ?df) = mset es"
    using rows by (metis mset_map mset_order_by_desc)
  moreover have "length ?df = length es"
    using rows by (metis length_map length_order_by_desc)
  ultimately show ?thesis
    using sorted_order_by_desc [of date_log "log_rows t'"] by blast
qed

theorem get_log_entries_returns_added_witness:
  "logbook (create_tables new_db) = Some \<lparr>log_rows = [], log_seq = 0\<rparr> \<and>
   log_rows \<lparr>log_rows = [], log_seq = 0\<rparr> = [] \<and>
   (\<exists>df. get_log_entries
           (run (map add_op [(''Alice'', ''Meeting'', ''2024-01-01'', ''weekly sync''),
                             (''Bob'', ''Task'', ''2024-02-15'', ''grading''),
                             (''Carol'', ''Event'', ''2024-01-01'', ''open day'')])
                (create_tables new_db)) = Inr df \<and>
         mset (map entry_of df) =
           mset [(''Alice'', ''Meeting'', ''2024-01-01'', ''weekly sync''),
                 (''Bob'', ''Task'', ''2024-02-15'', ''grading''),
                 (''Carol'', ''Event'', ''2024-01-01'', ''open day'')] \<and>
         length df = length [(''Alice'', ''Meeting'', ''2024-01-01'', ''weekly sync''),
                             (''Bob'', ''Task'', ''2024-02-15'', ''grading''),
                             (''Carol'', ''Event'', ''2024-01-01'', ''open day'')] \<and>
         sorted_wrt (\<lambda>a b. date_log b \<le> date_log a) df)"
proof -
  have h1: "logbook (create_tables new_db) = Some \<lparr>log_rows = [], log_seq = 0\<rparr>"
    by (simp add: create_tables_def new_db_def)
  have h2: "log_rows \<lparr>log_rows = [], log_seq = 0\<rparr> = []"
    by simp
  show ?thesis
    using h1 h2 get_log_entries_returns_added [OF h1 h2] by blast
qed


section \<open>The date of an attendance row\<close>

lemma of_char_digit: "(of_char (digit n) :: nat) = 48 + n mod 10"
proof -
  have "n mod 10 < 10" by simp
  then have "48 + n mod 10 < (256::nat)" by linarith
  then show ?thesis unfolding digit_def by (simp only: of_char_of mod_less)
qed

lemma is_digit_digit: "is_digit (digit n)"
  unfolding is_digit_def of_char_digit by simp

lemma decimal4:
  "decimal [digit a, digit b, digit c, digit d] =
     1000 * (a mod 10) + 100 * (b mod 10) + 10 * (c mod 10) + d mod 10"
  unfolding decimal_def foldl.simps of_char_digit by simp

lemma decimal2: "decimal [digit a, digit b] = 10 * (a mod 10) + b mod 10"
  unfolding decimal_def foldl.simps of_char_digit by simp

lemma two_digits:
  assumes "m < 100"
  shows "10 * (m div 10 mod 10) + m mod 10 = (m::nat)"
proof -
  from assms have "m div 10 < 10" by simp
  then have "m div 10 mod 10 = m div 10" by simp
  then show ?thesis by simp
qed

lemma four_digits:
  assumes "y < 10000"
  shows "1000 * (y div 1000 mod 10) + 100 * (y div 100 mod 10) + 10 * (y div 10 mod 10)
           + y mod 10 = (y::nat)"
proof -
  have q3: "y div 1000 mod 10 = y div 1000"
    using assms by simp
  have d2: "y div 100 div 10 = y div 1000" and d1: "y div 10 div 10 = y div 100"
    by (simp_all add: div_mult2_eq)
  have e2: "10 * (y div 1000) + y div 100 mod 10 = y div 100"
    using div_mult_mod_eq [of "y div 100" 10] by (simp add: d2)
  have e1: "10 * (y div 100) + y div 10 mod 10 = y div 10"
    using div_mult_mod_eq [of "y div 10" 10] by (simp add: d1)
  have e0: "10 * (y div 10) + y mod 10 = y"
    using div_mult_mod_eq [of y 10] by simp
  show ?thesis
    unfolding q3 using e2 e1 e0 by linarith
qed

lemma str_nat_small: "n < 10 \<Longrightarrow> str_nat n = [digit n]"
  by (subst str_nat.simps) simp

lemma str_nat_step: "10 \<le> n \<Longrightarrow> str_nat n = str_nat (n div 10) @ [digit n]"
  by (subst str_nat.simps) simp

lemma str_nat_four_digits:
  assumes "1000 \<le> y" and "y \<le> 9999"
  shows "str_nat y = [digit (y div 1000), digit (y div 100), digit (y div 10), digit y]"
proof -
  have d1: "y div 10 div 10 = y div 100" and d2: "y div 100 div 10 = y div 1000"
    by (simp_all add: div_mult2_eq)
  have a: "10 \<le> y" and b: "10 \<le> y div 10" and c: "10 \<le> y div 100" and d: "y div 1000 < 10"
    using assms by simp_all
  have "str_nat y = str_nat (y div 10) @ [digit y]"
    by (rule str_nat_step [OF a])
  also have "str_nat (y div 10) = str_nat (y div 100) @ [digit (y div 10)]"
    using str_nat_step [OF b] by (simp only: d1)
  also have "str_nat (y div 100) = str_nat (y div 1000) @ [digit (y div 100)]"
    using str_nat_step [OF c] by (simp only: d2)
  also have "str_nat (y div 1000) = [digit (y div 1000)]"
    by (rule str_nat_small [OF d])
  finally show ?thesis by simp
qed

text \<open>A year below 1000 is written on fewer than four digits, as the code writes it.\<close>

lemma strftime_Ymd_unpadded: "strftime_Ymd \<lparr>year = 999, month = 1, day = 1\<rparr> = ''999-01-01''"
  by code_simp

lemma strftime_Ymd_four:
  assumes "1000 \<le> year t" and "year t \<le> 9999"
  shows "strftime_Ymd t =
     [digit (year t div 1000), digit (year t div 100), digit (year t div 10), digit (year t),
      CHR ''-'', digit (month t div 10), digit (month t),
      CHR ''-'', digit (day t div 10), digit (day t)]"
  by (simp add: strftime_Ymd_def str_nat_four_digits [OF assms])

lemma strftime_Ymd_shape:
  assumes "1000 \<le> year t" and "year t \<le> 9999"
  shows "length (strftime_Ymd t) = 10 \<and> strftime_Ymd t ! 4 = CHR ''-'' \<and>
   strftime_Ymd t ! 7 = CHR ''-'' \<and>
   list_all is_digit (take 4 (strftime_Ymd t)) \<and>
   list_all is_digit (take 2 (drop 5 (strftime_Ymd t))) \<and>
   list_all is_digit (drop 8 (strftime_Ymd t))"
  by (simp add: strftime_Ymd_four [OF assms] is_digit_digit)

lemma strftime_Ymd_year:
  assumes "1000 \<le> year t" and "year t \<le> 9999"
  shows "decimal (take 4 (strftime_Ymd t)) = year t"
proof -
  have y: "year t < 10000"
    using assms by simp
  have "take 4 (strftime_Ymd t) =
          [digit (year t div 1000), digit (year t div 100), digit (year t div 10), digit (year t)]"
    by (simp add: strftime_Ymd_four [OF assms])
  then have "decimal (take 4 (strftime_Ymd t)) =
      1000 * (year t div 1000 mod 10) + 100 * (year t div 100 mod 10)
        + 10 * (year t div 10 mod 10) + year t mod 10"
    by (simp only: decimal4)
  then show ?thesis by (simp only: four_digits [OF y])
qed

lemma strftime_Ymd_month:
  assumes "1000 \<le> year t" and "year t \<le> 9999" and "month t < 100"
  shows "decimal (take 2 (drop 5 (strftime_Ymd t))) = month t"
proof -
  have "take 2 (drop 5 (strftime_Ymd t)) = [digit (month t div 10), digit (month t)]"
    by (simp add: strftime_Ymd_four [OF assms(1,2)])
  then have "decimal (take 2 (drop 5 (strftime_Ymd t))) =
      10 * (month t div 10 mod 10) + month t mod 10"
    by (simp only: decimal2)
  then show ?thesis by (simp only: two_digits [OF assms(3)])
qed

lemma strftime_Ymd_day:
  assumes "1000 \<le> year t" and "year t \<le> 9999" and "day t < 100"
  shows "decimal (drop 8 (strftime_Ymd t)) = day t"
proof -
  have "drop 8 (strftime_Ymd t) = [digit (day t div 10), digit (day t)]"
    by (simp add: strftime_Ymd_four [OF assms(1,2)])
  then have "decimal (drop 8 (strftime_Ymd t)) = 10 * (day t div 10 mod 10) + day t mod 10"
    by (simp only: decimal2)
  then show ?thesis by (simp only: two_digits [OF assms(3)])
qed

lemma logbook_exec:
  "logbook c = Some t \<Longrightarrow> \<exists>t'. logbook (snd (exec x c)) = Some t'"
  by (cases x) (auto simp: add_log_entry_def mark_attendance_def Let_def split: sum.splits option.splits)

lemma attendance_exec:
  "attendance c = Some t \<Longrightarrow> \<exists>t'. attendance (snd (exec x c)) = Some t'"
  by (cases x) (auto simp: add_log_entry_def mark_attendance_def Let_def split: sum.splits option.splits)

lemma tables_exist_run:
  "logbook c = Some lt \<Longrightarrow> attendance c = Some at \<Longrightarrow>
   \<exists>lt' at'. logbook (run xs c) = Some lt' \<and> attendance (run xs c) = Some at'"
proof (induction xs arbitrary: c lt at)
  case Nil
  then show ?case by simp
next
  case (Cons x xs)
  from logbook_exec [OF Cons.prems(1), of x] obtain lt1 where
    l: "logbook (snd (exec x c)) = Some lt1" by blast
  from attendance_exec [OF Cons.prems(2), of x] obtain at1 where
    a: "attendance (snd (exec x c)) = Some at1" by blast
  from Cons.IH [OF l a] show ?case by simp
qed

lemma tables_exist:
  "\<exists>lt at. logbook (run xs (create_tables c)) = Some lt \<and>
           attendance (run xs (create_tables c)) = Some at"
proof -
  obtain lt at where "logbook (create_tables c) = Some lt" "attendance (create_tables c) = Some at"
    by (cases "logbook c"; cases "attendance c") (simp_all add: create_tables_def)
  then show ?thesis by (rule tables_exist_run)
qed

lemma mark_attendance_row:
  assumes "attendance c = Some t"
  shows "mark_attendance now c sn rn st =
           Inr (c\<lparr>attendance := Some \<lparr>att_rows = att_rows t @
             [\<lparr>id_att = next_rowid (map id_att (att_rows t)) (att_seq t), student_name = sn,
               roll_number = rn, date_att = strftime_Ymd now, status = st\<rparr>],
             att_seq = next_rowid (map id_att (att_rows t)) (att_seq t)\<rparr>\<rparr>)"
  using assms by (simp add: mark_attendance_def Let_def)


text \<open>
  Claim C4. In any database the program can reach after \<^verbatim>\<open>create_tables\<close>, a
  call of \<^verbatim>\<open>mark_attendance\<close> succeeds and appends one row. The row carries the
  three arguments of the call, and its date is the clock's date at the call as
  \<^verbatim>\<open>strftime\<close> writes it; no argument of the call reaches the date column. For a
  clock in the range of \<^verbatim>\<open>datetime\<close> whose year has four digits, from 1000 to
  9999, the text is ten characters \<^verbatim>\<open>YYYY-MM-DD\<close>: digits with a dash at positions
  4 and 7, which read back as the clock's year, month and day.
\<close>

theorem mark_attendance_stores_today:
  "\<exists>c' r. mark_attendance now (run xs (create_tables c0)) sn rn st = Inr c' \<and>
      attendance_rows c' = attendance_rows (run xs (create_tables c0)) @ [r] \<and>
      student_name r = sn \<and> roll_number r = rn \<and> status r = st \<and>
      date_att r = strftime_Ymd now \<and>
      (is_date now \<and> 1000 \<le> year now \<longrightarrow>
         length (date_att r) = 10 \<and> date_att r ! 4 = CHR ''-'' \<and> date_att r ! 7 = CHR ''-'' \<and>
         list_all is_digit (take 4 (date_att r)) \<and>
         list_all is_digit (take 2 (drop 5 (date_att r))) \<and>
         list_all is_digit (drop 8 (date_att r)) \<and>
         decimal (take 4 (date_att r)) = year now \<and>
         decimal (take 2 (drop 5 (date_att r))) = month now \<and>
         decimal (drop 8 (date_att r)) = day now)"
proof -
  let ?c = "run xs (create_tables c0)"
  obtain t where t: "attendance ?c = Some t"
    using tables_exist [of xs c0] by blast
  define r where
    "r = \<lparr>id_att = next_rowid (map id_att (att_rows t)) (att_seq t), student_name = sn,
          roll_number = rn, date_att = strftime_Ymd now, status = st\<rparr>"
  define c' where "c' = ?c\<lparr>attendance := Some \<lparr>att_rows = att_rows t @ [r], att_seq = id_att r\<rparr>\<rparr>"
  have call: "mark_attendance now ?c sn rn st = Inr c'"
    by (simp add: mark_attendance_row [OF t] c'_def r_def)
  have rows: "attendance_rows c' = attendance_rows ?c @ [r]"
    by (simp add: attendance_rows_def t c'_def)
  have cols: "student_name r = sn" "roll_number r = rn" "status r = st"
    and d: "date_att r = strftime_Ymd now"
    by (simp_all add: r_def)
  have val: "is_date now \<and> 1000 \<le> year now \<longrightarrow>
         length (date_att r) = 10 \<and> date_att r ! 4 = CHR ''-'' \<and> date_att r ! 7 = CHR ''-'' \<and>
         list_all is_digit (take 4 (date_att r)) \<and>
         list_all is_digit (take 2 (drop 5 (date_att r))) \<and>
         list_all is_digit (drop 8 (date_att r)) \<and>
         decimal (take 4 (date_att r)) = year now \<and>
         decimal (take 2 (drop 5 (date_att r))) = month now \<and>
         decimal (drop 8 (date_att r)) = day now"
  proof
    assume a: "is_date now \<and> 1000 \<le> year now"
    then have y: "1000 \<le> year now" "year now \<le> 9999"
      and m: "month now < 100" and dd: "day now < 100"
      by (simp_all add: is_date_def)
    show "length (date_att r) = 10 \<and> date_att r ! 4 = CHR ''-'' \<and> date_att r ! 7 = CHR ''-'' \<and>
         list_all is_digit (take 4 (date_att r)) \<and>
         list_all is_digit (take 2 (drop 5 (date_att r))) \<and>
         list_all is_digit (drop 8 (date_att r)) \<and>
         decimal (take 4 (date_att r)) = year now \<and>
         decimal (take 2 (drop 5 (date_att r))) = month now \<and>
         decimal (drop 8 (date_att r)) = day now"
      unfolding d
      using strftime_Ymd_shape [OF y] strftime_Ymd_year [OF y]
        strftime_Ymd_month [OF y m] strftime_Ymd_day [OF y dd]
      by (simp only: simp_thms)
  qed
  show ?thesis
    using call rows cols d val
    by (intro exI [of _ c'] exI [of _ r]) (simp only: simp_thms)
qed

theorem mark_attendance_stores_today_witness:
  "(is_date \<lparr>year = 2024, month = 3, day = 7\<rparr> \<and>
    1000 \<le> year \<lparr>year = 2024, month = 3, day = 7\<rparr>) \<and>
   (\<exists>c' r. mark_attendance \<lparr>year = 2024, month = 3, day = 7\<rparr>
              (run [MarkAttendance \<lparr>year = 2024, month = 3, day = 6\<rparr> ''Ann'' ''R100'' ''Absent'']
                 (create_tables new_db)) ''Bob'' ''R101'' ''Present'' = Inr c' \<and>
      attendance_rows c' =
        attendance_rows
          (run [MarkAttendance \<lparr>year = 2024, month = 3, day = 6\<rparr> ''Ann'' ''R100'' ''Absent'']
             (create_tables new_db)) @ [r] \<and>
      date_att r = strftime_Ymd \<lparr>year = 2024, month = 3, day = 7\<rparr> \<and>
      length (date_att r) = 10 \<and>
      decimal (take 4 (date_att r)) = 2024 \<and>
      decimal (take 2 (drop 5 (date_att r))) = 3 \<and>
      decimal (drop 8 (date_att r)) = 7)"
proof -
  have d: "is_date \<lparr>year = 2024, month = 3, day = 7\<rparr> \<and>
    1000 \<le> year \<lparr>year = 2024, month = 3, day = 7\<rparr>"
    by (simp add: is_date_def)
  show ?thesis
    using d mark_attendance_stores_today
         [of "\<lparr>year = 2024, month = 3, day = 7\<rparr>"
             "[MarkAttendance \<lparr>year = 2024, month = 3, day = 6\<rparr> ''Ann'' ''R100'' ''Absent'']"
             new_db "''Bob''" "''R101''" "''Present''"]
    by auto
qed


section \<open>Row ids\<close>

lemma fold_max_ge: "x \<in> set ids \<Longrightarrow> x \<le> fold max ids (m::nat)"
proof -
  assume "x \<in> set ids"
  then have "x \<le> Max (set (m # ids))" by simp
  then show ?thesis by (simp only: Max.set_eq_fold)
qed

lemma next_rowid_gt: "x \<in> set ids \<Longrightarrow> x < next_rowid ids s"
  using fold_max_ge [of x ids 0] by (simp add: next_rowid_def)

lemma sorted_ids_snoc:
  "sorted_wrt (<) ids \<Longrightarrow> sorted_wrt (<) (ids @ [next_rowid ids s])"
  by (simp add: sorted_wrt_append next_rowid_gt)

lemma log_ids_exec: "sorted_wrt (<) (log_ids c) \<Longrightarrow> sorted_wrt (<) (log_ids (snd (exec x c)))"
  by (cases x)
     (auto simp: log_ids_def logbook_rows_def add_log_entry_def mark_attendance_def Let_def
                 sorted_ids_snoc
           split: sum.splits option.splits)

lemma att_ids_exec: "sorted_wrt (<) (att_ids c) \<Longrightarrow> sorted_wrt (<) (att_ids (snd (exec x c)))"
  by (cases x)
     (auto simp: att_ids_def attendance_rows_def add_log_entry_def mark_attendance_def Let_def
                 sorted_ids_snoc
           split: sum.splits option.splits)

lemma ids_run:
  "sorted_wrt (<) (log_ids c) \<Longrightarrow> sorted_wrt (<) (att_ids c) \<Longrightarrow>
   sorted_wrt (<) (log_ids (run xs c)) \<and> sorted_wrt (<) (att_ids (run xs c))"
  by (induction xs arbitrary: c) (simp_all add: log_ids_exec att_ids_exec)


text \<open>
  Claim C8. After any sequence of operations on a freshly created store, the ids of
  the logbook table and those of the attendance table are each strictly increasing in
  insertion order, and so pairwise distinct.
\<close>

theorem ids_unique_and_increasing:
  "sorted_wrt (<) (log_ids (run xs (create_tables new_db))) \<and>
   distinct (log_ids (run xs (create_tables new_db))) \<and>
   sorted_wrt (<) (att_ids (run xs (create_tables new_db))) \<and>
   distinct (att_ids (run xs (create_tables new_db)))"
proof -
  have "sorted_wrt (<) (log_ids (create_tables new_db))"
    and "sorted_wrt (<) (att_ids (create_tables new_db))"
    by (simp_all add: log_ids_def att_ids_def logbook_rows_def attendance_rows_def
          create_tables_def new_db_def)
  from ids_run [OF this, of xs] show ?thesis
    by (simp add: strict_sorted_iff)
qed

theorem ids_unique_and_increasing_witness:
  "log_ids (run [AddLogEntry ''Alice'' ''Meeting'' ''2024-01-01'' ''weekly sync'',
                 MarkAttendance \<lparr>year = 2024, month = 3, day = 7\<rparr> ''Bob'' ''R101'' ''Present'',
                 AddLogEntry ''Bob'' ''Task'' ''2023-12-31'' ''grading'',
                 MarkAttendance \<lparr>year = 2024, month = 3, day = 7\<rparr> ''Bob'' ''R101'' ''Absent'',
                 AddLogEntry ''Carol'' ''Event'' ''2024-01-01'' ''open day'']
              (create_tables new_db)) = [1, 2, 3] \<and>
   att_ids (run [AddLogEntry ''Alice'' ''Meeting'' ''2024-01-01'' ''weekly sync'',
                 MarkAttendance \<lparr>year = 2024, month = 3, day = 7\<rparr> ''Bob'' ''R101'' ''Present'',
                 AddLogEntry ''Bob'' ''Task'' ''2023-12-31'' ''grading'',
                 MarkAttendance \<lparr>year = 2024, month = 3, day = 7\<rparr> ''Bob'' ''R101'' ''Absent'',
                 AddLogEntry ''Carol'' ''Event'' ''2024-01-01'' ''open day'']
              (create_tables new_db)) = [1, 2] \<and>
   sorted_wrt (<) (log_ids (run [AddLogEntry ''Alice'' ''Meeting'' ''2024-01-01'' ''weekly sync'',
                 MarkAttendance \<lparr>year = 2024, month = 3, day = 7\<rparr> ''Bob'' ''R101'' ''Present'',
                 AddLogEntry ''Bob'' ''Task'' ''2023-12-31'' ''grading'',
                 MarkAttendance \<lparr>year = 2024, month = 3, day = 7\<rparr> ''Bob'' ''R101'' ''Absent'',
                 AddLogEntry ''Carol'' ''Event'' ''2024-01-01'' ''open day'']
              (create_tables new_db)))"
proof -
  let ?xs = "[AddLogEntry ''Alice'' ''Meeting'' ''2024-01-01'' ''weekly sync'',
                 MarkAttendance \<lparr>year = 2024, month = 3, day = 7\<rparr> ''Bob'' ''R101'' ''Present'',
                 AddLogEntry ''Bob'' ''Task'' ''2023-12-31'' ''grading'',
                 MarkAttendance \<lparr>year = 2024, month = 3, day = 7\<rparr> ''Bob'' ''R101'' ''Absent'',
                 AddLogEntry ''Carol'' ''Event'' ''2024-01-01'' ''open day'']"
  have "log_ids (run ?xs (create_tables new_db)) = [1, 2, 3]"
    by code_simp
  moreover have "att_ids (run ?xs (create_tables new_db)) = [1, 2]"
    by code_simp
  ultimately show ?thesis
    using ids_unique_and_increasing [of ?xs] by blast
qed


section \<open>An append-only store\<close>

lemma exec_appends:
  "\<exists>l a. logbook_rows (snd (exec x c)) = logbook_rows c @ l \<and>
         attendance_rows (snd (exec x c)) = attendance_rows c @ a"
  by (cases x)
     (auto simp: logbook_rows_def attendance_rows_def add_log_entry_def mark_attendance_def Let_def
           split: sum.splits option.splits)

lemma run_appends:
  "\<exists>l a. logbook_rows (run xs c) = logbook_rows c @ l \<and>
         attendance_rows (run xs c) = attendance_rows c @ a"
proof (induction xs arbitrary: c)
  case Nil
  show ?case by simp
next
  case (Cons x xs)
  from exec_appends [of x c] obtain l1 a1 where
    1: "logbook_rows (snd (exec x c)) = logbook_rows c @ l1"
       "attendance_rows (snd (exec x c)) = attendance_rows c @ a1"
    by blast
  from Cons.IH [of "snd (exec x c)"] obtain l2 a2 where
    2: "logbook_rows (run xs (snd (exec x c))) = logbook_rows (snd (exec x c)) @ l2"
       "attendance_rows (run xs (snd (exec x c))) = attendance_rows (snd (exec x c)) @ a2"
    by blast
  have "logbook_rows (run (x # xs) c) = logbook_rows c @ (l1 @ l2)"
    and "attendance_rows (run (x # xs) c) = attendance_rows c @ (a1 @ a2)"
    using 1 2 by simp_all
  then show ?case by blast
qed

lemma mark_twice:
  assumes t: "attendance c = Some t"
  shows "\<exists>r1 r2 A B.
      attendance_rows (run [MarkAttendance now sn rn s1, MarkAttendance now sn rn s2] c) =
        att_rows t @ [r1, r2] \<and>
      student_name r1 = sn \<and> roll_number r1 = rn \<and> date_att r1 = strftime_Ymd now \<and>
      status r1 = s1 \<and>
      student_name r2 = sn \<and> roll_number r2 = rn \<and> date_att r2 = strftime_Ymd now \<and>
      status r2 = s2 \<and>
      id_att r1 < id_att r2 \<and>
      get_attendance c = Inr (A @ B) \<and>
      get_attendance (run [MarkAttendance now sn rn s1, MarkAttendance now sn rn s2] c) =
        Inr (A @ r1 # r2 # B) \<and>
      sorted_wrt (\<lambda>a b. date_att b \<le> date_att a) (A @ r1 # r2 # B)"
proof -
  define i1 where "i1 = next_rowid (map id_att (att_rows t)) (att_seq t)"
  define r1 where
    "r1 = \<lparr>id_att = i1, student_name = sn, roll_number = rn,
           date_att = strftime_Ymd now, status = s1\<rparr>"
  define t1 where "t1 = \<lparr>att_rows = att_rows t @ [r1], att_seq = i1\<rparr>"
  define c1 where "c1 = c\<lparr>attendance := Some t1\<rparr>"
  define i2 where "i2 = next_rowid (map id_att (att_rows t1)) (att_seq t1)"
  define r2 where
    "r2 = \<lparr>id_att = i2, student_name = sn, roll_number = rn,
           date_att = strftime_Ymd now, status = s2\<rparr>"
  define t2 where "t2 = \<lparr>att_rows = att_rows t1 @ [r2], att_seq = i2\<rparr>"
  define c2 where "c2 = c1\<lparr>attendance := Some t2\<rparr>"
  have m1: "mark_attendance now c sn rn s1 = Inr c1"
    using t by (simp add: mark_attendance_def Let_def c1_def t1_def r1_def i1_def)
  have t1: "attendance c1 = Some t1"
    by (simp add: c1_def)
  have m2: "mark_attendance now c1 sn rn s2 = Inr c2"
    using t1 by (simp add: mark_attendance_def Let_def c2_def t2_def r2_def i2_def)
  have run: "run [MarkAttendance now sn rn s1, MarkAttendance now sn rn s2] c = c2"
    by (simp add: m1 m2)
  have rows: "attendance_rows c2 = att_rows t @ [r1, r2]"
    by (simp add: attendance_rows_def c2_def t2_def t1_def)
  have "i1 \<in> set (map id_att (att_rows t1))"
    by (simp add: t1_def r1_def)
  then have "i1 < i2"
    unfolding i2_def by (rule next_rowid_gt)
  then have lt: "id_att r1 < id_att r2"
    by (simp add: r1_def r2_def)
  have same: "date_att r1 = date_att r2"
    by (simp add: r1_def r2_def)
  from order_by_desc_two_equal [of date_att r1 r2 "att_rows t", OF same] obtain A B where
    before: "order_by_desc date_att (att_rows t) = A @ B"
    and after: "order_by_desc date_att (att_rows t @ [r1, r2]) = A @ r1 # r2 # B"
    by blast
  have get0: "get_attendance c = Inr (A @ B)"
    by (simp add: get_attendance_def t before)
  have get2: "get_attendance c2 = Inr (A @ r1 # r2 # B)"
    by (simp add: get_attendance_def c2_def t2_def t1_def after)
  have so: "sorted_wrt (\<lambda>a b. date_att b \<le> date_att a) (A @ r1 # r2 # B)"
    using sorted_order_by_desc [of date_att "att_rows t @ [r1, r2]"] by (simp only: after)
  have cols: "student_name r1 = sn \<and> roll_number r1 = rn \<and> date_att r1 = strftime_Ymd now \<and>
      status r1 = s1 \<and>
      student_name r2 = sn \<and> roll_number r2 = rn \<and> date_att r2 = strftime_Ymd now \<and>
      status r2 = s2"
    by (simp add: r1_def r2_def)
  show ?thesis
    unfolding run using rows cols lt get0 get2 so by blast
qed

text \<open>
  Claim C5, as amended. No operation of the program overwrites or removes a row: after
  any sequence of operations, on any database, each table holds the rows it held
  before, in their places, followed by the new ones. In particular, in a store that
  \<^verbatim>\<open>create_tables\<close> has set up, marking attendance twice for the same student
  and roll number on the same day appends two rows with different ids, and
  \<^verbatim>\<open>get_attendance\<close> then returns what it returned before with the two new rows
  put in next to each other: the frame is ordered by date, latest date first, and of
  the two rows of the same day the one marked first comes first.
\<close>

theorem store_is_append_only:
  "(\<exists>l a. logbook_rows (run ys c) = logbook_rows c @ l \<and>
          attendance_rows (run ys c) = attendance_rows c @ a) \<and>
   (\<exists>r1 r2 A B.
      attendance_rows (run [MarkAttendance now sn rn s1, MarkAttendance now sn rn s2]
                         (run xs (create_tables c0))) =
        attendance_rows (run xs (create_tables c0)) @ [r1, r2] \<and>
      student_name r1 = sn \<and> roll_number r1 = rn \<and> date_att r1 = strftime_Ymd now \<and>
      status r1 = s1 \<and>
      student_name r2 = sn \<and> roll_number r2 = rn \<and> date_att r2 = strftime_Ymd now \<and>
      status r2 = s2 \<and>
      id_att r1 < id_att r2 \<and>
      get_attendance (run xs (create_tables c0)) = Inr (A @ B) \<and>
      get_attendance (run [MarkAttendance now sn rn s1, MarkAttendance now sn rn s2]
                        (run xs (create_tables c0))) = Inr (A @ r1 # r2 # B) \<and>
      sorted_wrt (\<lambda>a b. date_att b \<le> date_att a) (A @ r1 # r2 # B))"
proof -
  obtain t where t: "attendance (run xs (create_tables c0)) = Some t"
    using tables_exist [of xs c0] by blast
  then have "attendance_rows (run xs (create_tables c0)) = att_rows t"
    by (simp add: attendance_rows_def)
  with mark_twice [OF t, of now sn rn s1 s2] run_appends [of ys c] show ?thesis
    by simp
qed

theorem store_is_append_only_witness:
  "\<exists>r1 r2 A B.
      attendance_rows
        (run [MarkAttendance \<lparr>year = 2024, month = 3, day = 7\<rparr> ''Bob'' ''R101'' ''Present'',
              MarkAttendance \<lparr>year = 2024, month = 3, day = 7\<rparr> ''Bob'' ''R101'' ''Absent'']
           (run [MarkAttendance \<lparr>year = 2024, month = 3, day = 8\<rparr> ''Ann'' ''R100'' ''Present'',
                 MarkAttendance \<lparr>year = 2024, month = 3, day = 6\<rparr> ''Cy'' ''R102'' ''Absent'']
              (create_tables new_db))) =
        attendance_rows
          (run [MarkAttendance \<lparr>year = 2024, month = 3, day = 8\<rparr> ''Ann'' ''R100'' ''Present'',
                MarkAttendance \<lparr>year = 2024, month = 3, day = 6\<rparr> ''Cy'' ''R102'' ''Absent'']
             (create_tables new_db)) @ [r1, r2] \<and>
      status r1 = ''Present'' \<and> status r2 = ''Absent'' \<and> id_att r1 < id_att r2 \<and>
      get_attendance
        (run [MarkAttendance \<lparr>year = 2024, month = 3, day = 8\<rparr> ''Ann'' ''R100'' ''Present'',
              MarkAttendance \<lparr>year = 2024, month = 3, day = 6\<rparr> ''Cy'' ''R102'' ''Absent'']
           (create_tables new_db)) = Inr (A @ B) \<and>
      get_attendance
        (run [MarkAttendance \<lparr>year = 2024, month = 3, day = 7\<rparr> ''Bob'' ''R101'' ''Present'',
              MarkAttendance \<lparr>year = 2024, month = 3, day = 7\<rparr> ''Bob'' ''R101'' ''Absent'']
           (run [MarkAttendance \<lparr>year = 2024, month = 3, day = 8\<rparr> ''Ann'' ''R100'' ''Present'',
                 MarkAttendance \<lparr>year = 2024, month = 3, day = 6\<rparr> ''Cy'' ''R102'' ''Absent'']
              (create_tables new_db))) = Inr (A @ r1 # r2 # B)"
  using store_is_append_only
      [of "[]" new_db "\<lparr>year = 2024, month = 3, day = 7\<rparr>" "''Bob''" "''R101''"
          "''Present''" "''Absent''"
          "[MarkAttendance \<lparr>year = 2024, month = 3, day = 8\<rparr> ''Ann'' ''R100'' ''Present'',
            MarkAttendance \<lparr>year = 2024, month = 3, day = 6\<rparr> ''Cy'' ''R102'' ''Absent'']"
          new_db]
  by blast


text \<open>
  Claim C5 as it is written has the two rows of the same day come out most recent
  first. The query orders by the date column alone, and on a fresh store the row
  marked first is returned first, the row marked last second.
\<close>

theorem most_recent_first_counterexample:
  "get_attendance
     (run [MarkAttendance \<lparr>year = 2024, month = 3, day = 7\<rparr> ''Bob'' ''R101'' ''Present'',
           MarkAttendance \<lparr>year = 2024, month = 3, day = 7\<rparr> ''Bob'' ''R101'' ''Absent'']
        (create_tables new_db))
   = Inr [\<lparr>id_att = 1, student_name = ''Bob'', roll_number = ''R101'',
            date_att = ''2024-03-07'', status = ''Present''\<rparr>,
          \<lparr>id_att = 2, student_name = ''Bob'', roll_number = ''R101'',
            date_att = ''2024-03-07'', status = ''Absent''\<rparr>] \<and>
   get_attendance
     (run [MarkAttendance \<lparr>year = 2024, month = 3, day = 7\<rparr> ''Bob'' ''R101'' ''Present'',
           MarkAttendance \<lparr>year = 2024, month = 3, day = 7\<rparr> ''Bob'' ''R101'' ''Absent'']
        (create_tables new_db))
   \<noteq> Inr [\<lparr>id_att = 2, student_name = ''Bob'', roll_number = ''R101'',
            date_att = ''2024-03-07'', status = ''Absent''\<rparr>,
          \<lparr>id_att = 1, student_name = ''Bob'', roll_number = ''R101'',
            date_att = ''2024-03-07'', status = ''Present''\<rparr>]"
proof -
  have e: "get_attendance
     (run [MarkAttendance \<lparr>year = 2024, month = 3, day = 7\<rparr> ''Bob'' ''R101'' ''Present'',
           MarkAttendance \<lparr>year = 2024, month = 3, day = 7\<rparr> ''Bob'' ''R101'' ''Absent'']
        (create_tables new_db))
   = Inr [\<lparr>id_att = 1, student_name = ''Bob'', roll_number = ''R101'',
            date_att = ''2024-03-07'', status = ''Present''\<rparr>,
          \<lparr>id_att = 2, student_name = ''Bob'', roll_number = ''R101'',
            date_att = ''2024-03-07'', status = ''Absent''\<rparr>]"
    by code_simp
  show ?thesis
    unfolding e by simp
qed


section \<open>What each operation leaves alone\<close>

text \<open>
  Claim C10. The three reading operations, \<^verbatim>\<open>get_log_entries\<close>,
  \<^verbatim>\<open>get_attendance\<close> and \<^verbatim>\<open>ai_suggestions\<close>, leave the database as it was,
  whether they return or raise; \<^verbatim>\<open>add_log_entry\<close> leaves the attendance table
  as it was and \<^verbatim>\<open>mark_attendance\<close> the logbook table.
\<close>

theorem frame_of_operations:
  "snd (exec GetLogEntries c) = c \<and>
   snd (exec GetAttendance c) = c \<and>
   snd (exec (AiSuggestions q df) c) = c \<and>
   attendance (snd (exec (AddLogEntry n a d s) c)) = attendance c \<and>
   logbook (snd (exec (MarkAttendance now sn rn st) c)) = logbook c"
  by (simp add: add_log_entry_def mark_attendance_def Let_def split: sum.split option.split)


section \<open>The similarity advisor on an empty and on a non-empty corpus\<close>

text \<open>
  Claim C3. On a data frame without rows \<^verbatim>\<open>ai_suggestions\<close> returns normally,
  for every query: it raises nothing and puts on the page the one warning that no
  logs are available, and no entry.
\<close>

theorem ai_suggestions_empty_corpus:
  "ai_suggestions q [] = Inr [Warning ''No logs available for AI suggestions.'']"
  by (simp add: ai_suggestions_def)

text \<open>
  On a data frame with rows the function never returns: either
  \<^verbatim>\<open>fit_transform\<close> raises on an empty vocabulary, or the attribute lookup of
  line 73 raises. The query plays no part in the result.
\<close>

lemma ai_suggestions_raises:
  "logbook_df \<noteq> [] \<Longrightarrow>
   ai_suggestions q logbook_df = Inl ValueError \<or> ai_suggestions q logbook_df = Inl AttributeError"
  by (simp add: ai_suggestions_def fit_transform_def getattr_transform_def Let_def)

lemma ai_suggestions_ignores_query: "ai_suggestions q df = ai_suggestions q' df"
  by (simp add: ai_suggestions_def)

text \<open>
  Claim C2 says that a corpus of one entry whose description is the query itself
  yields that entry with score 1.0. On the code, at such an input, the call raises
  \<^verbatim>\<open>AttributeError\<close>: no entry and no score is produced.
\<close>

theorem identical_description_raises:
  "ai_suggestions ''weekly sync on project status''
     [\<lparr>id_log = 1, name = ''Alice'', activity = ''Meeting'', date_log = ''2024-01-01'',
       description = ''weekly sync on project status''\<rparr>] = Inl AttributeError"
  by code_simp

text \<open>
  Claim C6 says that the entry of maximal similarity is selected, the first one on a
  tie. On the code, for a corpus of two entries that share one term each with the
  query and so would tie, the call raises \<^verbatim>\<open>AttributeError\<close> before any entry
  is selected.
\<close>

theorem tied_corpus_raises:
  "ai_suggestions ''grading''
     [\<lparr>id_log = 2, name = ''Bob'', activity = ''Task'', date_log = ''2024-02-15'',
       description = ''grading homework''\<rparr>,
      \<lparr>id_log = 1, name = ''Alice'', activity = ''Meeting'', date_log = ''2024-01-01'',
       description = ''grading exams''\<rparr>] = Inl AttributeError"
  by code_simp

text \<open>
  Claim C7 says that the score of each entry is the cosine similarity of the count
  vectors, within the interval from 0 to 1. On the code, for the entry and the query
  of the specification's own scenario, the call raises \<^verbatim>\<open>AttributeError\<close>
  before \<^verbatim>\<open>cosine_similarity\<close> is called: no score is computed.
\<close>

theorem no_score_is_computed:
  "ai_suggestions ''weekly sync status update''
     [\<lparr>id_log = 1, name = ''Alice'', activity = ''Meeting'', date_log = ''2024-01-01'',
       description = ''weekly sync on project status''\<rparr>] = Inl AttributeError"
  by code_simp

text \<open>
  Claim C9 says that an empty or whitespace-only query is processed like any other
  and still produces a result. On the code the query is indeed treated like any
  other, and like any other it produces no result: on a non-empty corpus the call
  raises \<^verbatim>\<open>AttributeError\<close> for the empty query and for a query of three
  blanks.
\<close>

theorem blank_query_raises:
  "ai_suggestions '''' 
     [\<lparr>id_log = 1, name = ''Alice'', activity = ''Meeting'', date_log = ''2024-01-01'',
       description = ''weekly sync on project status''\<rparr>] = Inl AttributeError \<and>
   ai_suggestions ''   ''
     [\<lparr>id_log = 1, name = ''Alice'', activity = ''Meeting'', date_log = ''2024-01-01'',
       description = ''weekly sync on project status''\<rparr>] = Inl AttributeError"
  by code_simp

end
